theory Spec2Isabelle
  imports Complex_Main
begin

text \<open>
  The control plane of a CDN edge-selection service (\<^verbatim>\<open>cdn.py\<close>): a registry of
  servers, a great-circle distance, the selection of the best healthy server for a
  client, a periodic health-scoring pass and a text export of the registry.

  A Python number is an unbounded integer or a float, and the embedding keeps track of
  which: \<^verbatim>\<open>max(0, x)\<close> hands back the integer \<^verbatim>\<open>0\<close>, an f-string prints the two
  differently, and an integer that meets a float is converted first, which raises
  \<^verbatim>\<open>OverflowError\<close> when it is too large. A float is represented by the real number
  it denotes; infinities and NaN are not represented.

  The distance is computed in float arithmetic and with the C library's functions.
  Their results are not those of the real operations (the value under a square root
  can leave \<open>[0, 1]\<close> by rounding), so the distance takes them as a parameter
  \<open>fp\<close>, and so does the selection key. Comparisons of numbers are exact. The
  subtractions of the health pass are taken exact.
\<close>

section \<open>Values and errors\<close>

text \<open>
  \<^verbatim>\<open>KeyError\<close> is what a dictionary lookup raises on a missing key,
  \<^verbatim>\<open>ValueError\<close> what \<^verbatim>\<open>math.sqrt\<close> raises on a negative argument and
  \<^verbatim>\<open>min\<close> on an empty sequence, \<^verbatim>\<open>OverflowError\<close> what the conversion of an
  integer to a float raises when the integer rounds to \<open>2 ^ 1024\<close> or beyond.
\<close>

datatype error = KeyError string | ValueError | OverflowError

datatype number = PyInt int | PyFloat real

fun as_real :: "number \<Rightarrow> real" where
  "as_real (PyInt i) = real_of_int i"
| "as_real (PyFloat x) = x"

fun to_float :: "number \<Rightarrow> error + real" where
  "to_float (PyFloat x) = Inr x"
| "to_float (PyInt i) =
     (if 2 ^ 1024 - 2 ^ 970 \<le> \<bar>i\<bar> then Inl OverflowError else Inr (real_of_int i))"

text \<open>
  Subtraction of two numbers: exact on two integers; otherwise both operands are
  converted to floats, the left one first.
\<close>

fun number_sub :: "number \<Rightarrow> number \<Rightarrow> error + number" where
  "number_sub (PyInt a) (PyInt b) = Inr (PyInt (a - b))"
| "number_sub x y =
     (case to_float x of
        Inl e \<Rightarrow> Inl e
      | Inr a \<Rightarrow> (case to_float y of Inl e \<Rightarrow> Inl e | Inr b \<Rightarrow> Inr (PyFloat (a - b))))"

section \<open>Float arithmetic\<close>

text \<open>
  What the distance needs of the platform: \<open>rnd\<close> rounds the exact result of an
  addition, subtraction, multiplication or division to a float; \<open>deg_to_rad\<close> is the
  constant by which \<^verbatim>\<open>math.radians\<close> multiplies; the others are the C library's
  \<^verbatim>\<open>sin\<close>, \<^verbatim>\<open>cos\<close>, \<^verbatim>\<open>pow\<close>, \<^verbatim>\<open>sqrt\<close> (on a non-negative argument) and
  \<^verbatim>\<open>atan2\<close>.
\<close>

record float_ops =
  rnd :: "real \<Rightarrow> real"
  deg_to_rad :: real
  m_sin :: "real \<Rightarrow> real"
  m_cos :: "real \<Rightarrow> real"
  m_pow :: "real \<Rightarrow> int \<Rightarrow> real"
  m_sqrt :: "real \<Rightarrow> real"
  m_atan2 :: "real \<Rightarrow> real \<Rightarrow> real"

section \<open>The distance model\<close>

text \<open>
  A location is a \<^verbatim>\<open>Dict[str, float]\<close>; \<^verbatim>\<open>calculate_network_distance\<close> reads the
  keys \<^verbatim>\<open>'lat'\<close> and \<^verbatim>\<open>'lon'\<close> of its first argument and then of its second,
  converts degrees to radians and applies the haversine formula with radius 6371.
\<close>

type_synonym coordinate = "string \<rightharpoonup> real"

definition getitem :: "coordinate \<Rightarrow> string \<Rightarrow> error + real" where
  "getitem d k = (case d k of None \<Rightarrow> Inl (KeyError k) | Some v \<Rightarrow> Inr v)"

definition radians :: "float_ops \<Rightarrow> real \<Rightarrow> real" where
  "radians fp x = rnd fp (x * deg_to_rad fp)"

definition math_sqrt :: "float_ops \<Rightarrow> real \<Rightarrow> error + real" where
  "math_sqrt fp x = (if x < 0 then Inl ValueError else Inr (m_sqrt fp x))"

definition haversine_a :: "float_ops \<Rightarrow> real \<Rightarrow> real \<Rightarrow> real \<Rightarrow> real \<Rightarrow> real" where
  "haversine_a fp lat1 lon1 lat2 lon2 =
     (let dlat = rnd fp (lat2 - lat1); dlon = rnd fp (lon2 - lon1)
      in rnd fp (m_pow fp (m_sin fp (rnd fp (dlat / 2))) 2
                 + rnd fp (rnd fp (m_cos fp lat1 * m_cos fp lat2)
                           * m_pow fp (m_sin fp (rnd fp (dlon / 2))) 2)))"

definition calculate_network_distance ::
  "float_ops \<Rightarrow> coordinate \<Rightarrow> coordinate \<Rightarrow> error + real" where
  "calculate_network_distance fp loc1 loc2 =
     (let R = 6371 in
      case getitem loc1 ''lat'' of Inl e \<Rightarrow> Inl e | Inr a1 \<Rightarrow>
      case getitem loc1 ''lon'' of Inl e \<Rightarrow> Inl e | Inr o1 \<Rightarrow>
      case getitem loc2 ''lat'' of Inl e \<Rightarrow> Inl e | Inr a2 \<Rightarrow>
      case getitem loc2 ''lon'' of Inl e \<Rightarrow> Inl e | Inr o2 \<Rightarrow>
      let a = haversine_a fp (radians fp a1) (radians fp o1) (radians fp a2) (radians fp o2) in
      case math_sqrt fp a of Inl e \<Rightarrow> Inl e | Inr p \<Rightarrow>
      case math_sqrt fp (rnd fp (1 - a)) of Inl e \<Rightarrow> Inl e | Inr q \<Rightarrow>
      Inr (rnd fp (R * rnd fp (2 * m_atan2 fp p q))))"

section \<open>The server registry\<close>

text \<open>
  \<^verbatim>\<open>self.servers\<close> is a Python dictionary: keys are unique, iteration follows
  insertion order, and assigning to a key that is present keeps its position. It is an
  association list here, since the order decides ties in the selection and the order
  of the exported lines. Records are values: the registry's entry stands for the
  registered object, which lives under the one key it was registered with. The log
  messages of \<^verbatim>\<open>register_server\<close> and \<^verbatim>\<open>deregister_server\<close> are left out.
\<close>

record ServerInfo =
  server_id :: string
  host :: string
  port :: int
  location :: coordinate
  health_score :: number
  last_health_check :: number
  total_requests :: int
  error_count :: int

definition new_ServerInfo :: "string \<Rightarrow> string \<Rightarrow> int \<Rightarrow> coordinate \<Rightarrow> ServerInfo" where
  "new_ServerInfo sid h p loc =
     \<lparr>server_id = sid, host = h, port = p, location = loc,
      health_score = PyFloat 100, last_health_check = PyInt 0,
      total_requests = 0, error_count = 0\<rparr>"

type_synonym servers_dict = "(string \<times> ServerInfo) list"

fun dict_set :: "string \<Rightarrow> ServerInfo \<Rightarrow> servers_dict \<Rightarrow> servers_dict" where
  "dict_set k v [] = [(k, v)]"
| "dict_set k v ((k', v') # d) =
     (if k' = k then (k', v) # d else (k', v') # dict_set k v d)"

fun dict_del :: "string \<Rightarrow> servers_dict \<Rightarrow> servers_dict" where
  "dict_del k [] = []"
| "dict_del k ((k', v') # d) = (if k' = k then d else (k', v') # dict_del k d)"

definition dict_get :: "servers_dict \<Rightarrow> string \<Rightarrow> ServerInfo option" where
  "dict_get d k = map_of d k"

definition dict_contains :: "string \<Rightarrow> servers_dict \<Rightarrow> bool" where
  "dict_contains k d = (dict_get d k \<noteq> None)"

definition dict_values :: "servers_dict \<Rightarrow> ServerInfo list" where
  "dict_values d = map snd d"

record CDNManagementService =
  servers :: servers_dict

definition init_service :: CDNManagementService where
  "init_service = \<lparr>servers = []\<rparr>"

definition register_server :: "CDNManagementService \<Rightarrow> ServerInfo \<Rightarrow> CDNManagementService" where
  "register_server self server_info =
     self\<lparr>servers := dict_set (server_id server_info) server_info (servers self)\<rparr>"

definition deregister_server :: "CDNManagementService \<Rightarrow> string \<Rightarrow> CDNManagementService" where
  "deregister_server self sid =
     (if dict_contains sid (servers self)
      then self\<lparr>servers := dict_del sid (servers self)\<rparr>
      else self)"

section \<open>Server selection\<close>

text \<open>
  \<^verbatim>\<open>min(healthy_servers, key=...)\<close> computes the key of every candidate in order and
  keeps the first one that no later candidate is strictly below. Keys are pairs,
  compared as Python compares tuples: by the first components when they differ, by the
  second otherwise. An exception raised by the key function leaves \<^verbatim>\<open>min\<close>.
\<close>

definition tuple_lt :: "real \<times> real \<Rightarrow> real \<times> real \<Rightarrow> bool" where
  "tuple_lt p q = (if fst p \<noteq> fst q then fst p < fst q else snd p < snd q)"

fun min_scan :: "('a \<Rightarrow> error + real \<times> real) \<Rightarrow> 'a \<Rightarrow> real \<times> real \<Rightarrow> 'a list \<Rightarrow> error + 'a" where
  "min_scan key best bk [] = Inr best"
| "min_scan key best bk (x # xs) =
     (case key x of
        Inl e \<Rightarrow> Inl e
      | Inr k \<Rightarrow> if tuple_lt k bk then min_scan key x k xs else min_scan key best bk xs)"

definition py_min :: "('a \<Rightarrow> error + real \<times> real) \<Rightarrow> 'a list \<Rightarrow> error + 'a" where
  "py_min key xs =
     (case xs of
        [] \<Rightarrow> Inl ValueError
      | x # rest \<Rightarrow> (case key x of Inl e \<Rightarrow> Inl e | Inr k \<Rightarrow> min_scan key x k rest))"

text \<open>
  \<^verbatim>\<open>100 - s.health_score\<close>: exact on an integer score, the rounded difference of
  two floats otherwise (100 converts to a float without error).
\<close>

definition health_deficit :: "float_ops \<Rightarrow> number \<Rightarrow> number" where
  "health_deficit fp h =
     (case h of PyInt i \<Rightarrow> PyInt (100 - i) | PyFloat x \<Rightarrow> PyFloat (rnd fp (100 - x)))"

definition selection_key :: "float_ops \<Rightarrow> coordinate \<Rightarrow> ServerInfo \<Rightarrow> error + real \<times> real" where
  "selection_key fp client_location s =
     (case calculate_network_distance fp client_location (location s) of
        Inl e \<Rightarrow> Inl e
      | Inr d \<Rightarrow> Inr (d, as_real (health_deficit fp (health_score s))))"

definition healthy_servers :: "CDNManagementService \<Rightarrow> ServerInfo list" where
  "healthy_servers self =
     filter (\<lambda>server. as_real (health_score server) > 50) (dict_values (servers self))"

definition select_optimal_server ::
  "float_ops \<Rightarrow> CDNManagementService \<Rightarrow> coordinate \<Rightarrow> error + ServerInfo option" where
  "select_optimal_server fp self client_location =
     (if healthy_servers self = [] then Inr None
      else case py_min (selection_key fp client_location) (healthy_servers self) of
             Inl e \<Rightarrow> Inl e
           | Inr s \<Rightarrow> Inr (Some s))"

section \<open>Health checking\<close>

text \<open>
  \<open>health_check_body\<close> is what stands inside the \<^verbatim>\<open>try\<close> of the loop in
  \<^verbatim>\<open>health_check\<close>: one reading of the clock, the test against the 30 second
  interval, and the two assignments; it raises when an integer does not convert to a
  float, before either assignment. \<open>check_server\<close> adds the handler, which logs and
  goes on to the next server, so that the record stays as it was. One pass over the
  snapshot reads the clock once per server (\<open>clock i\<close> is the reading at the \<open>i\<close>-th
  server). The enclosing \<^verbatim>\<open>while True\<close> never returns; \<open>health_check n\<close> is its
  first \<open>n\<close> passes, the sleeps between them left out.
\<close>

definition py_max :: "number \<Rightarrow> number \<Rightarrow> number" where
  "py_max a b = (if as_real b > as_real a then b else a)"

definition health_check_body :: "real \<Rightarrow> ServerInfo \<Rightarrow> error + ServerInfo" where
  "health_check_body current_time server =
     (case number_sub (PyFloat current_time) (last_health_check server) of
        Inl e \<Rightarrow> Inl e
      | Inr elapsed \<Rightarrow>
          if as_real elapsed > 30
          then (case number_sub (health_score server) (PyInt (error_count server * 10)) of
                  Inl e \<Rightarrow> Inl e
                | Inr score \<Rightarrow>
                    Inr (server\<lparr>health_score := py_max (PyInt 0) score,
                                last_health_check := PyFloat current_time\<rparr>))
          else Inr server)"

definition check_server :: "real \<Rightarrow> ServerInfo \<Rightarrow> ServerInfo" where
  "check_server current_time server =
     (case health_check_body current_time server of
        Inl e \<Rightarrow> server
      | Inr server' \<Rightarrow> server')"

fun check_servers_from :: "(nat \<Rightarrow> real) \<Rightarrow> nat \<Rightarrow> servers_dict \<Rightarrow> servers_dict" where
  "check_servers_from clock i [] = []"
| "check_servers_from clock i ((k, server) # d) =
     (k, check_server (clock i) server) # check_servers_from clock (Suc i) d"

definition health_check_pass :: "(nat \<Rightarrow> real) \<Rightarrow> CDNManagementService \<Rightarrow> CDNManagementService" where
  "health_check_pass clock self = self\<lparr>servers := check_servers_from clock 0 (servers self)\<rparr>"

fun health_check :: "nat \<Rightarrow> (nat \<Rightarrow> nat \<Rightarrow> real) \<Rightarrow> CDNManagementService \<Rightarrow> CDNManagementService" where
  "health_check 0 clocks self = self"
| "health_check (Suc n) clocks self =
     health_check n (\<lambda>j. clocks (Suc j)) (health_check_pass (clocks 0) self)"

section \<open>Metrics export\<close>

text \<open>
  \<^verbatim>\<open>generate_metrics\<close> appends three strings per dictionary item and joins all of
  them with newlines. Integers print in decimal; how a float prints is left to the
  parameter \<open>repr_float\<close>. \<open>split_lines\<close> is \<^verbatim>\<open>str.split('\n')\<close>, which reads the
  lines back from a text.
\<close>

definition dquote :: char where
  "dquote = CHR 0x22"


fun str_nat :: "nat \<Rightarrow> string" where
  "str_nat n =
     (if n < 10 then [''0123456789'' ! n]
      else str_nat (n div 10) @ [''0123456789'' ! (n mod 10)])"

declare str_nat.simps [simp del]

definition str_int :: "int \<Rightarrow> string" where
  "str_int i = (if i < 0 then CHR ''-'' # str_nat (nat (- i)) else str_nat (nat i))"

definition format_number :: "(real \<Rightarrow> string) \<Rightarrow> number \<Rightarrow> string" where
  "format_number repr_float x = (case x of PyInt i \<Rightarrow> str_int i | PyFloat r \<Rightarrow> repr_float r)"

definition server_metrics :: "(real \<Rightarrow> string) \<Rightarrow> string \<Rightarrow> ServerInfo \<Rightarrow> string list" where
  "server_metrics repr_float sid server =
     [''cdn_server_health{server_id='' @ [dquote] @ sid @ [dquote] @ ''} ''
        @ format_number repr_float (health_score server),
      ''cdn_server_requests{server_id='' @ [dquote] @ sid @ [dquote] @ ''} ''
        @ str_int (total_requests server),
      ''cdn_server_errors{server_id='' @ [dquote] @ sid @ [dquote] @ ''} ''
        @ str_int (error_count server)]"

definition metrics_list :: "(real \<Rightarrow> string) \<Rightarrow> CDNManagementService \<Rightarrow> string list" where
  "metrics_list repr_float self =
     fold (\<lambda>(sid, server) metrics. metrics @ server_metrics repr_float sid server)
       (servers self) []"




section \<open>Sequences of operations\<close>

text \<open>
  The operations of the core, as they may follow one another on one registry. Selection
  and export only read the registry.
\<close>

datatype operation =
    Register ServerInfo
  | Deregister string
  | HealthCheckPass "nat \<Rightarrow> real"
  | SelectServer coordinate
  | ExportMetrics

fun apply_operation :: "operation \<Rightarrow> CDNManagementService \<Rightarrow> CDNManagementService" where
  "apply_operation (Register info) self = register_server self info"
| "apply_operation (Deregister sid) self = deregister_server self sid"
| "apply_operation (HealthCheckPass clock) self = health_check_pass clock self"
| "apply_operation (SelectServer loc) self = self"
| "apply_operation ExportMetrics self = self"

fun run :: "operation list \<Rightarrow> CDNManagementService \<Rightarrow> CDNManagementService" where
  "run [] self = self"
| "run (op # ops) self = run ops (apply_operation op self)"

section \<open>Notions used to state the properties\<close>

text \<open>
  Arithmetic without rounding: the operations of the real numbers. It serves to run the
  distance on concrete coordinates; no property of the program is derived from it.
\<close>

definition exact_atan2 :: "real \<Rightarrow> real \<Rightarrow> real" where
  "exact_atan2 y x =
     (if 0 < x then arctan (y / x)
      else if x < 0 then (if 0 \<le> y then arctan (y / x) + pi else arctan (y / x) - pi)
      else if 0 < y then pi / 2
      else if y < 0 then - (pi / 2)
      else 0)"

definition exact_ops :: float_ops where
  "exact_ops =
     \<lparr>rnd = (\<lambda>x. x), deg_to_rad = pi / 180, m_sin = sin, m_cos = cos,
      m_pow = (\<lambda>x n. x ^ nat n), m_sqrt = sqrt, m_atan2 = exact_atan2\<rparr>"

text \<open>
  Double arithmetic: \<open>round53\<close> rounds a real number to the nearest number with a
  53-bit significand, ties to the even one (exponents unbounded, so neither overflow
  nor subnormal numbers). \<open>double_ops\<close> rounds every arithmetic result in this way
  and multiplies by the double that \<^verbatim>\<open>math.radians\<close> holds for \<open>pi / 180\<close>. For \<^verbatim>\<open>sin\<close> and \<^verbatim>\<open>cos\<close> it
  holds the doubles that the C library returns at the three arguments which the
  coordinates \<open>ex_north\<close> and \<open>ex_south\<close> lead to (for another argument, the rounded
  value of the real function).
\<close>

definition round_half_even :: "real \<Rightarrow> int" where
  "round_half_even x =
     (let f = \<lfloor>x\<rfloor>; d = x - of_int f
      in if d < 1 / 2 then f else if 1 / 2 < d then f + 1 else if even f then f else f + 1)"

definition round53 :: "real \<Rightarrow> real" where
  "round53 x =
     (if x = 0 then 0
      else let e = \<lfloor>log 2 \<bar>x\<bar>\<rfloor> - 52
           in of_int (round_half_even (x / 2 powr of_int e)) * 2 powr of_int e)"

definition libm_sin :: "real \<Rightarrow> real" where
  "libm_sin x =
     (if x = - (0x11DF46A2529D39 / 2 ^ 55) then - (0x11D06C968D9E19 / 2 ^ 55)
      else if x = 0x1921FB54442D18 / 2 ^ 52 then 1
      else round53 (sin x))"

definition libm_cos :: "real \<Rightarrow> real" where
  "libm_cos x =
     (if \<bar>x\<bar> = 0x11DF46A2529D39 / 2 ^ 55 then 0x1FB046A930947A / 2 ^ 53
      else round53 (cos x))"

definition double_ops :: float_ops where
  "double_ops =
     \<lparr>rnd = round53, deg_to_rad = 0x11DF46A2529D39 / 2 ^ 58,
      m_sin = libm_sin, m_cos = libm_cos,
      m_pow = (\<lambda>x n. round53 (x ^ nat n)),
      m_sqrt = (\<lambda>x. round53 (sqrt x)),
      m_atan2 = (\<lambda>y x. round53 (exact_atan2 y x))\<rparr>"

text \<open>
  What symmetry and a zero distance need of the arithmetic: rounding, \<^verbatim>\<open>sin\<close> and the
  square commute with the sign, and the operations are exact at 0 and 1.
\<close>

definition sign_symmetric :: "float_ops \<Rightarrow> bool" where
  "sign_symmetric fp =
     ((\<forall>x. rnd fp (- x) = - rnd fp x) \<and> (\<forall>x. m_sin fp (- x) = - m_sin fp x)
      \<and> (\<forall>x. m_pow fp (- x) 2 = m_pow fp x 2))"

definition exact_at_zero_one :: "float_ops \<Rightarrow> bool" where
  "exact_at_zero_one fp =
     (rnd fp 0 = 0 \<and> rnd fp 1 = 1 \<and> m_sin fp 0 = 0 \<and> m_pow fp 0 2 = 0
      \<and> m_sqrt fp 0 = 0 \<and> m_sqrt fp 1 = 1 \<and> m_atan2 fp 0 1 = 0)"

text \<open>A coordinate is a location that has both keys.\<close>

definition is_coordinate :: "coordinate \<Rightarrow> bool" where
  "is_coordinate loc = (loc ''lat'' \<noteq> None \<and> loc ''lon'' \<noteq> None)"

text \<open>
  \<open>first_least fp loc us s vs\<close>: in the list \<open>us @ s # vs\<close> every record before
  \<open>s\<close> has a key strictly above that of \<open>s\<close>, and no record after it has a key
  strictly below. \<open>read_only\<close> holds of selection and export.
\<close>

definition first_least ::
  "float_ops \<Rightarrow> coordinate \<Rightarrow> ServerInfo list \<Rightarrow> ServerInfo \<Rightarrow> ServerInfo list \<Rightarrow> bool" where
  "first_least fp loc us s vs =
     (\<exists>k. selection_key fp loc s = Inr k
        \<and> (\<forall>u \<in> set us. \<exists>ku. selection_key fp loc u = Inr ku \<and> tuple_lt k ku)
        \<and> (\<forall>v \<in> set vs. \<exists>kv. selection_key fp loc v = Inr kv \<and> \<not> tuple_lt kv k))"

fun read_only :: "operation \<Rightarrow> bool" where
  "read_only (SelectServer loc) = True"
| "read_only ExportMetrics = True"
| "read_only _ = False"

text \<open>
  The score that a due health check computes before it is bounded below, and the
  clamping of a value to an interval.
\<close>

definition new_score :: "ServerInfo \<Rightarrow> real" where
  "new_score server = as_real (health_score server) - real_of_int (error_count server * 10)"

definition clamp :: "real \<Rightarrow> real \<Rightarrow> real \<Rightarrow> real" where
  "clamp x lo hi = max lo (min hi x)"

text \<open>
  When the body of the health check assigns: \<open>convertible\<close> holds of the numbers that
  become floats without \<^verbatim>\<open>OverflowError\<close>, \<open>due\<close> of a record last checked more
  than 30 seconds before the reading \<open>t\<close>, \<open>score_computable\<close> of a record whose
  score subtraction raises nothing (two integers, or a float and an integer that
  converts). \<open>updates\<close> is their conjunction.
\<close>

fun convertible :: "number \<Rightarrow> bool" where
  "convertible (PyFloat x) = True"
| "convertible (PyInt i) = (\<bar>i\<bar> < 2 ^ 1024 - 2 ^ 970)"

definition due :: "real \<Rightarrow> ServerInfo \<Rightarrow> bool" where
  "due t server = (30 < t - as_real (last_health_check server))"

definition score_computable :: "ServerInfo \<Rightarrow> bool" where
  "score_computable server =
     (case health_score server of
        PyInt h \<Rightarrow> True
      | PyFloat h \<Rightarrow> convertible (PyInt (error_count server * 10)))"

definition updates :: "real \<Rightarrow> ServerInfo \<Rightarrow> bool" where
  "updates t server =
     (convertible (last_health_check server) \<and> due t server \<and> score_computable server)"

text \<open>
  On sequences of operations: \<open>registers_default\<close> holds of every operation but a
  registration whose record does not start with health 100 and a non-negative error
  count; \<open>replaces k\<close> holds of the operations that put a new record under the id \<open>k\<close>
  or remove the record under it. \<open>sound_record\<close> and \<open>sound_registry\<close> are the
  invariant of the registry.
\<close>

fun registers_default :: "operation \<Rightarrow> bool" where
  "registers_default (Register info) =
     (as_real (health_score info) = 100 \<and> 0 \<le> error_count info)"
| "registers_default _ = True"

fun replaces :: "string \<Rightarrow> operation \<Rightarrow> bool" where
  "replaces k (Register info) = (server_id info = k)"
| "replaces k (Deregister sid) = (sid = k)"
| "replaces k _ = False"

definition sound_record :: "ServerInfo \<Rightarrow> bool" where
  "sound_record s =
     (0 \<le> as_real (health_score s) \<and> as_real (health_score s) \<le> 100 \<and> 0 \<le> error_count s)"

definition sound_registry :: "CDNManagementService \<Rightarrow> bool" where
  "sound_registry self = (\<forall>(k, s) \<in> set (servers self). sound_record s)"

definition time_of :: "ServerInfo \<Rightarrow> real" where
  "time_of s = as_real (last_health_check s)"

text \<open>Concrete servers and registries on which the properties are exercised.\<close>

definition ex_loc :: coordinate where
  "ex_loc = [''lat'' \<mapsto> 40.7128, ''lon'' \<mapsto> - 74.0060]"



definition ex_north :: coordinate where
  "ex_north = [''lat'' \<mapsto> 8, ''lon'' \<mapsto> 0]"

definition ex_south :: coordinate where
  "ex_south = [''lat'' \<mapsto> - 8, ''lon'' \<mapsto> 180]"

definition ex_server :: "string \<Rightarrow> real \<Rightarrow> int \<Rightarrow> ServerInfo" where
  "ex_server sid h e = (new_ServerInfo sid ''localhost'' 8080 ex_loc)\<lparr>health_score := PyFloat h, error_count := e\<rparr>"


definition ex_tie :: CDNManagementService where
  "ex_tie = register_server (register_server init_service (ex_server ''a'' 100 0))
              (ex_server ''b'' 100 0)"

definition ex_pass :: CDNManagementService where
  "ex_pass = register_server (register_server init_service (ex_server ''a'' 100 3))
               ((ex_server ''b'' 90 1)\<lparr>last_health_check := PyFloat 1000\<rparr>)"

definition ex_ops :: "operation list" where
  "ex_ops = [Register (ex_server ''ny'' 100 10), HealthCheckPass (\<lambda>i. 31),
             SelectServer ex_loc, ExportMetrics, Deregister ''la'']"

definition ex_bad_ops :: "operation list" where
  "ex_bad_ops = [Register (ex_server ''ny'' 100 (- 1)), HealthCheckPass (\<lambda>i. 31)]"

definition ex_worn :: CDNManagementService where
  "ex_worn = run [Register ((ex_server ''a'' 100 3)\<lparr>total_requests := 7\<rparr>),
                  Register (ex_server ''b'' 100 1), HealthCheckPass (\<lambda>i. 31)] init_service"

definition ex_one :: CDNManagementService where
  "ex_one = register_server init_service ((ex_server ''ny'' 100 2)\<lparr>total_requests := 15\<rparr>)"


section \<open>Running the distance and the key\<close>

lemma distance_exact_same:
  assumes "is_coordinate a"
  shows "calculate_network_distance exact_ops a a = Inr 0"
proof -
  from assms obtain a1 o1 where "a ''lat'' = Some a1" "a ''lon'' = Some o1"
    by (auto simp: is_coordinate_def)
  then show ?thesis
    by (simp add: calculate_network_distance_def getitem_def haversine_a_def radians_def
        math_sqrt_def exact_ops_def exact_atan2_def)
qed


lemma ex_loc_coordinate: "is_coordinate ex_loc"
  by (simp add: is_coordinate_def ex_loc_def)


lemma health_deficit_exact: "as_real (health_deficit exact_ops h) = 100 - as_real h"
  by (cases h) (simp_all add: health_deficit_def exact_ops_def)



section \<open>Properties of the distance model\<close>

lemma haversine_a_swap:
  assumes "sign_symmetric fp"
  shows "haversine_a fp lat1 lon1 lat2 lon2 = haversine_a fp lat2 lon2 lat1 lon1"
proof -
  from assms have r: "\<And>x. rnd fp (- x) = - rnd fp x" and s: "\<And>x. m_sin fp (- x) = - m_sin fp x"
    and p: "\<And>x. m_pow fp (- x) 2 = m_pow fp x 2"
    by (simp_all add: sign_symmetric_def)
  have half: "m_pow fp (m_sin fp (rnd fp (rnd fp (y - x) / 2))) 2
      = m_pow fp (m_sin fp (rnd fp (rnd fp (x - y) / 2))) 2" for x y :: real
  proof -
    have "rnd fp (y - x) = - rnd fp (x - y)" using r [of "x - y"] by simp
    then have "rnd fp (rnd fp (y - x) / 2) = - rnd fp (rnd fp (x - y) / 2)"
      using r [of "rnd fp (x - y) / 2"] by simp
    then show ?thesis by (simp add: s p)
  qed
  show ?thesis
    by (simp add: haversine_a_def Let_def half [of lat1 lat2] half [of lon1 lon2] mult.commute)
qed

lemma distance_symmetric:
  assumes "sign_symmetric fp" "is_coordinate a" "is_coordinate b"
  shows "calculate_network_distance fp a b = calculate_network_distance fp b a"
proof -
  from assms(2,3) obtain a1 o1 a2 o2 where
    "a ''lat'' = Some a1" "a ''lon'' = Some o1" "b ''lat'' = Some a2" "b ''lon'' = Some o2"
    by (auto simp: is_coordinate_def)
  then show ?thesis
    using haversine_a_swap [OF assms(1), of "radians fp a1" "radians fp o1" "radians fp a2"
        "radians fp o2"]
    by (simp add: calculate_network_distance_def getitem_def Let_def)
qed

lemma distance_zero:
  assumes "exact_at_zero_one fp" "is_coordinate a"
  shows "calculate_network_distance fp a a = Inr 0"
proof -
  from assms(2) obtain a1 o1 where "a ''lat'' = Some a1" "a ''lon'' = Some o1"
    by (auto simp: is_coordinate_def)
  with assms(1) show ?thesis
    by (simp add: calculate_network_distance_def getitem_def haversine_a_def math_sqrt_def
        exact_at_zero_one_def)
qed

lemma distance_raises_above_one:
  assumes "a ''lat'' = Some a1" "a ''lon'' = Some o1" "b ''lat'' = Some a2" "b ''lon'' = Some o2"
    and "0 \<le> haversine_a fp (radians fp a1) (radians fp o1) (radians fp a2) (radians fp o2)"
    and "rnd fp (1 - haversine_a fp (radians fp a1) (radians fp o1) (radians fp a2) (radians fp o2)) < 0"
  shows "calculate_network_distance fp a b = Inl ValueError"
  using assms by (simp add: calculate_network_distance_def getitem_def math_sqrt_def Let_def)

lemma round53_scaled:
  assumes "2 ^ 52 \<le> \<bar>x * 2 ^ k\<bar>" "\<bar>x * 2 ^ k\<bar> < 2 ^ 53"
  shows "round53 x = of_int (round_half_even (x * 2 ^ k)) / 2 ^ k"
proof -
  from assms(1) have nz: "x \<noteq> 0" by auto
  have pos: "0 < \<bar>x\<bar>" using nz by simp
  have ax: "\<bar>x * 2 ^ k\<bar> = \<bar>x\<bar> * 2 ^ k" by (simp add: abs_mult)
  have p1: "2 powr (52 - real k) = 2 ^ 52 / 2 ^ k"
    by (simp add: powr_diff powr_realpow)
  have p2: "2 powr (52 - real k + 1) = 2 ^ 53 / 2 ^ k"
  proof -
    have "52 - real k + 1 = 53 - real k" by simp
    then show ?thesis by (simp add: powr_diff powr_realpow)
  qed
  have k: "(0::real) < 2 ^ k" by simp
  have lo: "2 ^ 52 / 2 ^ k \<le> \<bar>x\<bar>"
    using assms(1) k unfolding ax by (simp add: pos_divide_le_eq)
  have hi: "\<bar>x\<bar> < 2 ^ 53 / 2 ^ k"
    using assms(2) k unfolding ax by (simp add: pos_less_divide_eq)
  have "2 powr (of_int (52 - int k)) \<le> \<bar>x\<bar> \<and> \<bar>x\<bar> < 2 powr (of_int (52 - int k) + 1)"
    using lo hi p1 p2 by simp
  then have fl: "\<lfloor>log 2 \<bar>x\<bar>\<rfloor> = 52 - int k"
    using floor_log_eq_powr_iff [of "\<bar>x\<bar>" 2 "52 - int k"] pos by simp
  have e: "2 powr (real_of_int \<lfloor>log 2 \<bar>x\<bar>\<rfloor> - 52) = 1 / 2 ^ k"
  proof -
    have "real_of_int \<lfloor>log 2 \<bar>x\<bar>\<rfloor> - 52 = - real k" using fl by simp
    then have "2 powr (real_of_int \<lfloor>log 2 \<bar>x\<bar>\<rfloor> - 52) = 2 powr (- real k)" by simp
    also have "\<dots> = 1 / 2 ^ k" by (simp add: powr_minus powr_realpow field_simps)
    finally show ?thesis .
  qed
  show ?thesis using nz by (simp add: round53_def Let_def e)
qed

lemma round53_zero: "round53 0 = 0"
  by (simp add: round53_def)

lemma step_radians_8: "round53 (8 * (0x11DF46A2529D39 / 2 ^ 58)) = 0x11DF46A2529D39 / 2 ^ 55"
  using round53_scaled [of "8 * (0x11DF46A2529D39 / 2 ^ 58)" 55]
  by (simp add: round_half_even_def)

lemma step_radians_m8: "round53 (- 8 * (0x11DF46A2529D39 / 2 ^ 58)) = - (0x11DF46A2529D39 / 2 ^ 55)"
  using round53_scaled [of "- 8 * (0x11DF46A2529D39 / 2 ^ 58)" 55]
  by (simp add: round_half_even_def)

lemma step_radians_180: "round53 (180 * (0x11DF46A2529D39 / 2 ^ 58)) = 0x1921FB54442D18 / 2 ^ 51"
  using round53_scaled [of "180 * (0x11DF46A2529D39 / 2 ^ 58)" 51]
  by (simp add: round_half_even_def)

lemma step_dlat:
  "round53 (- (0x11DF46A2529D39 / 2 ^ 55) - 0x11DF46A2529D39 / 2 ^ 55) = - (0x11DF46A2529D39 / 2 ^ 54)"
  using round53_scaled [of "- (0x11DF46A2529D39 / 2 ^ 55) - 0x11DF46A2529D39 / 2 ^ 55" 54]
  by (simp add: round_half_even_def)

lemma step_dlat_half:
  "round53 (- (0x11DF46A2529D39 / 2 ^ 54) / 2) = - (0x11DF46A2529D39 / 2 ^ 55)"
  using round53_scaled [of "- (0x11DF46A2529D39 / 2 ^ 54) / 2" 55]
  by (simp add: round_half_even_def)

lemma step_dlon: "round53 (0x1921FB54442D18 / 2 ^ 51 - 0) = 0x1921FB54442D18 / 2 ^ 51"
  using round53_scaled [of "0x1921FB54442D18 / 2 ^ 51 - 0" 51]
  by (simp add: round_half_even_def)

lemma step_dlon_half: "round53 (0x1921FB54442D18 / 2 ^ 51 / 2) = 0x1921FB54442D18 / 2 ^ 52"
  using round53_scaled [of "0x1921FB54442D18 / 2 ^ 51 / 2" 52]
  by (simp add: round_half_even_def)

lemma step_sin_sq:
  "round53 ((- (0x11D06C968D9E19 / 2 ^ 55)) ^ nat 2) = 0x13D581CA184804 / 2 ^ 58"
  using round53_scaled [of "(- (0x11D06C968D9E19 / 2 ^ 55)) ^ nat 2" 58]
  by (simp add: round_half_even_def power2_eq_square)

lemma step_one_sq: "round53 (1 ^ nat 2) = 1"
  using round53_scaled [of "1 ^ nat 2" 52]
  by (simp add: round_half_even_def)

lemma step_cos_cos:
  "round53 (0x1FB046A930947A / 2 ^ 53 * (0x1FB046A930947A / 2 ^ 53)) = 0x1F6153F1AF3DC1 / 2 ^ 53"
  using round53_scaled [of "0x1FB046A930947A / 2 ^ 53 * (0x1FB046A930947A / 2 ^ 53)" 53]
  by (simp add: round_half_even_def)

lemma step_times_one:
  "round53 (0x1F6153F1AF3DC1 / 2 ^ 53 * 1) = 0x1F6153F1AF3DC1 / 2 ^ 53"
  using round53_scaled [of "0x1F6153F1AF3DC1 / 2 ^ 53 * 1" 53]
  by (simp add: round_half_even_def)

lemma step_sum:
  "round53 (0x13D581CA184804 / 2 ^ 58 + 0x1F6153F1AF3DC1 / 2 ^ 53) = 1 + 1 / 2 ^ 52"
  using round53_scaled [of "0x13D581CA184804 / 2 ^ 58 + 0x1F6153F1AF3DC1 / 2 ^ 53" 52]
  by (simp add: round_half_even_def)

lemma step_one_minus: "round53 (1 - (1 + 1 / 2 ^ 52)) = - (1 / 2 ^ 52)"
  using round53_scaled [of "1 - (1 + 1 / 2 ^ 52)" 104]
  by (simp add: round_half_even_def)

lemma double_ops_fields:
  "rnd double_ops = round53"
  "deg_to_rad double_ops = 0x11DF46A2529D39 / 2 ^ 58"
  "m_sin double_ops = libm_sin"
  "m_cos double_ops = libm_cos"
  "m_pow double_ops = (\<lambda>x n. round53 (x ^ nat n))"
  by (simp_all add: double_ops_def)

lemma libm_values:
  "libm_sin (- (0x11DF46A2529D39 / 2 ^ 55)) = - (0x11D06C968D9E19 / 2 ^ 55)"
  "libm_sin (0x1921FB54442D18 / 2 ^ 52) = 1"
  "libm_cos (0x11DF46A2529D39 / 2 ^ 55) = 0x1FB046A930947A / 2 ^ 53"
  "libm_cos (- (0x11DF46A2529D39 / 2 ^ 55)) = 0x1FB046A930947A / 2 ^ 53"
  by (simp_all add: libm_sin_def libm_cos_def)

lemma radians_values:
  "radians double_ops 8 = 0x11DF46A2529D39 / 2 ^ 55"
  "radians double_ops 0 = 0"
  "radians double_ops (- 8) = - (0x11DF46A2529D39 / 2 ^ 55)"
  "radians double_ops 180 = 0x1921FB54442D18 / 2 ^ 51"
proof -
  show "radians double_ops 8 = 0x11DF46A2529D39 / 2 ^ 55"
    unfolding radians_def double_ops_fields by (rule step_radians_8)
  show "radians double_ops 0 = 0"
    unfolding radians_def double_ops_fields by (simp add: round53_zero)
  show "radians double_ops (- 8) = - (0x11DF46A2529D39 / 2 ^ 55)"
    unfolding radians_def double_ops_fields by (rule step_radians_m8)
  show "radians double_ops 180 = 0x1921FB54442D18 / 2 ^ 51"
    unfolding radians_def double_ops_fields by (rule step_radians_180)
qed

lemma haversine_term_above_one:
  "haversine_a double_ops (0x11DF46A2529D39 / 2 ^ 55) 0 (- (0x11DF46A2529D39 / 2 ^ 55))
     (0x1921FB54442D18 / 2 ^ 51) = 1 + 1 / 2 ^ 52"
  unfolding haversine_a_def Let_def double_ops_fields
  by (simp only: step_dlat step_dlat_half step_dlon step_dlon_half libm_values
      step_sin_sq step_one_sq step_cos_cos step_times_one step_sum)

text \<open>
  C4: the distance function is meant to be total on coordinates, symmetric and zero on
  equal coordinates. Symmetry and the zero distance hold (\<open>distance_symmetric\<close> and
  \<open>distance_zero\<close>, for an arithmetic that respects signs and is exact at 0 and 1).
  Totality does not: in double arithmetic, for the coordinates (8, 0) and (-8, 180),
  the haversine term rounds to \<open>1 + 1 / 2 ^ 52\<close>, its complement is negative, and
  the square root raises \<^verbatim>\<open>ValueError\<close>.
\<close>

theorem distance_antipodal_raises:
  "calculate_network_distance double_ops ex_north ex_south = Inl ValueError"
proof -
  have keys: "getitem ex_north ''lat'' = Inr 8" "getitem ex_north ''lon'' = Inr 0"
    "getitem ex_south ''lat'' = Inr (- 8)" "getitem ex_south ''lon'' = Inr 180"
    by (simp_all add: getitem_def ex_north_def ex_south_def)
  have root: "math_sqrt double_ops (1 + 1 / 2 ^ 52) = Inr (m_sqrt double_ops (1 + 1 / 2 ^ 52))"
    by (simp add: math_sqrt_def)
  have neg: "math_sqrt double_ops (rnd double_ops (1 - (1 + 1 / 2 ^ 52))) = Inl ValueError"
    unfolding double_ops_fields step_one_minus by (simp add: math_sqrt_def)
  show ?thesis
    unfolding calculate_network_distance_def Let_def keys
    by (simp only: sum.case radians_values haversine_term_above_one root neg)
qed

section \<open>Properties of the minimum\<close>


lemma tuple_lt_trans: "tuple_lt p q \<Longrightarrow> tuple_lt q r \<Longrightarrow> tuple_lt p r"
  by (auto simp: tuple_lt_def split: if_splits)


lemma tuple_lt_not_lt: "tuple_lt p q \<Longrightarrow> \<not> tuple_lt r q \<Longrightarrow> tuple_lt p r"
  by (auto simp: tuple_lt_def split: if_splits)


lemma min_scan_mem: "min_scan key best bk xs = Inr m \<Longrightarrow> m = best \<or> m \<in> set xs"
  by (induction xs arbitrary: best bk) (auto split: sum.splits if_splits)

lemma py_min_mem: "py_min key xs = Inr m \<Longrightarrow> m \<in> set xs"
  by (auto simp: py_min_def split: list.splits sum.splits dest: min_scan_mem)

lemma min_scan_keys:
  "min_scan key best bk xs = Inr m \<Longrightarrow> \<forall>x \<in> set xs. \<exists>k. key x = Inr k"
  by (induction xs arbitrary: best bk) (auto split: sum.splits if_splits)

lemma py_min_keys: "py_min key xs = Inr m \<Longrightarrow> \<forall>x \<in> set xs. \<exists>k. key x = Inr k"
  by (auto simp: py_min_def split: list.splits sum.splits dest: min_scan_keys)

lemma min_scan_split:
  assumes "\<forall>x \<in> set xs. key x = Inr (g x)"
  shows "\<exists>m. min_scan key best (g best) xs = Inr m \<and>
           ((m = best \<and> (\<forall>x \<in> set xs. \<not> tuple_lt (g x) (g best)))
            \<or> (\<exists>us vs. xs = us @ m # vs \<and> tuple_lt (g m) (g best)
                  \<and> (\<forall>u \<in> set us. tuple_lt (g m) (g u))
                  \<and> (\<forall>v \<in> set vs. \<not> tuple_lt (g v) (g m))))"
  using assms
proof (induction xs arbitrary: best)
  case Nil
  then show ?case by simp
next
  case (Cons x xs)
  from Cons.prems have kx: "key x = Inr (g x)" and rest: "\<forall>y \<in> set xs. key y = Inr (g y)"
    by simp_all
  show ?case
  proof (cases "tuple_lt (g x) (g best)")
    case True
    from Cons.IH [OF rest, of x] obtain m where
      m: "min_scan key x (g x) xs = Inr m"
      and alt: "(m = x \<and> (\<forall>y \<in> set xs. \<not> tuple_lt (g y) (g x)))
            \<or> (\<exists>us vs. xs = us @ m # vs \<and> tuple_lt (g m) (g x)
                  \<and> (\<forall>u \<in> set us. tuple_lt (g m) (g u))
                  \<and> (\<forall>v \<in> set vs. \<not> tuple_lt (g v) (g m)))"
      by blast
    from alt have "\<exists>us vs. x # xs = us @ m # vs \<and> tuple_lt (g m) (g best)
                  \<and> (\<forall>u \<in> set us. tuple_lt (g m) (g u))
                  \<and> (\<forall>v \<in> set vs. \<not> tuple_lt (g v) (g m))"
    proof
      assume "m = x \<and> (\<forall>y \<in> set xs. \<not> tuple_lt (g y) (g x))"
      with True have "x # xs = [] @ m # xs \<and> tuple_lt (g m) (g best)
          \<and> (\<forall>u \<in> set []. tuple_lt (g m) (g u)) \<and> (\<forall>v \<in> set xs. \<not> tuple_lt (g v) (g m))"
        by simp
      then show ?thesis by blast
    next
      assume "\<exists>us vs. xs = us @ m # vs \<and> tuple_lt (g m) (g x)
                  \<and> (\<forall>u \<in> set us. tuple_lt (g m) (g u))
                  \<and> (\<forall>v \<in> set vs. \<not> tuple_lt (g v) (g m))"
      then obtain us vs where s: "xs = us @ m # vs" "tuple_lt (g m) (g x)"
          "\<forall>u \<in> set us. tuple_lt (g m) (g u)" "\<forall>v \<in> set vs. \<not> tuple_lt (g v) (g m)"
        by blast
      from s(2) True have "tuple_lt (g m) (g best)" by (rule tuple_lt_trans)
      with s have "x # xs = (x # us) @ m # vs \<and> tuple_lt (g m) (g best)
          \<and> (\<forall>u \<in> set (x # us). tuple_lt (g m) (g u)) \<and> (\<forall>v \<in> set vs. \<not> tuple_lt (g v) (g m))"
        by simp
      then show ?thesis by blast
    qed
    with m True kx show ?thesis by auto
  next
    case False
    from Cons.IH [OF rest, of best] obtain m where
      m: "min_scan key best (g best) xs = Inr m"
      and alt: "(m = best \<and> (\<forall>y \<in> set xs. \<not> tuple_lt (g y) (g best)))
            \<or> (\<exists>us vs. xs = us @ m # vs \<and> tuple_lt (g m) (g best)
                  \<and> (\<forall>u \<in> set us. tuple_lt (g m) (g u))
                  \<and> (\<forall>v \<in> set vs. \<not> tuple_lt (g v) (g m)))"
      by blast
    from alt have "(m = best \<and> (\<forall>y \<in> set (x # xs). \<not> tuple_lt (g y) (g best)))
            \<or> (\<exists>us vs. x # xs = us @ m # vs \<and> tuple_lt (g m) (g best)
                  \<and> (\<forall>u \<in> set us. tuple_lt (g m) (g u))
                  \<and> (\<forall>v \<in> set vs. \<not> tuple_lt (g v) (g m)))"
    proof
      assume "m = best \<and> (\<forall>y \<in> set xs. \<not> tuple_lt (g y) (g best))"
      with False show ?thesis by simp
    next
      assume "\<exists>us vs. xs = us @ m # vs \<and> tuple_lt (g m) (g best)
                  \<and> (\<forall>u \<in> set us. tuple_lt (g m) (g u))
                  \<and> (\<forall>v \<in> set vs. \<not> tuple_lt (g v) (g m))"
      then obtain us vs where s: "xs = us @ m # vs" "tuple_lt (g m) (g best)"
          "\<forall>u \<in> set us. tuple_lt (g m) (g u)" "\<forall>v \<in> set vs. \<not> tuple_lt (g v) (g m)"
        by blast
      from s(2) False have "tuple_lt (g m) (g x)" by (rule tuple_lt_not_lt)
      with s have "x # xs = (x # us) @ m # vs \<and> tuple_lt (g m) (g best)
          \<and> (\<forall>u \<in> set (x # us). tuple_lt (g m) (g u)) \<and> (\<forall>v \<in> set vs. \<not> tuple_lt (g v) (g m))"
        by simp
      then show ?thesis by blast
    qed
    with m False kx show ?thesis by auto
  qed
qed

lemma py_min_split:
  assumes "xs \<noteq> []" "\<forall>x \<in> set xs. key x = Inr (g x)"
  shows "\<exists>m us vs. py_min key xs = Inr m \<and> xs = us @ m # vs
           \<and> (\<forall>u \<in> set us. tuple_lt (g m) (g u))
           \<and> (\<forall>v \<in> set vs. \<not> tuple_lt (g v) (g m))"
proof -
  from assms(1) obtain y ys where xs: "xs = y # ys" by (cases xs) auto
  with assms(2) have ky: "key y = Inr (g y)" and rest: "\<forall>x \<in> set ys. key x = Inr (g x)"
    by simp_all
  from min_scan_split [OF rest, of y] obtain m where
    m: "min_scan key y (g y) ys = Inr m"
    and alt: "(m = y \<and> (\<forall>x \<in> set ys. \<not> tuple_lt (g x) (g y)))
            \<or> (\<exists>us vs. ys = us @ m # vs \<and> tuple_lt (g m) (g y)
                  \<and> (\<forall>u \<in> set us. tuple_lt (g m) (g u))
                  \<and> (\<forall>v \<in> set vs. \<not> tuple_lt (g v) (g m)))"
    by blast
  have pm: "py_min key xs = Inr m" using m ky xs by (simp add: py_min_def)
  from alt have "\<exists>us vs. xs = us @ m # vs
           \<and> (\<forall>u \<in> set us. tuple_lt (g m) (g u))
           \<and> (\<forall>v \<in> set vs. \<not> tuple_lt (g v) (g m))"
  proof
    assume "m = y \<and> (\<forall>x \<in> set ys. \<not> tuple_lt (g x) (g y))"
    with xs have "xs = [] @ m # ys \<and> (\<forall>u \<in> set []. tuple_lt (g m) (g u))
           \<and> (\<forall>v \<in> set ys. \<not> tuple_lt (g v) (g m))"
      by simp
    then show ?thesis by blast
  next
    assume "\<exists>us vs. ys = us @ m # vs \<and> tuple_lt (g m) (g y)
                  \<and> (\<forall>u \<in> set us. tuple_lt (g m) (g u))
                  \<and> (\<forall>v \<in> set vs. \<not> tuple_lt (g v) (g m))"
    then obtain us vs where s: "ys = us @ m # vs" "tuple_lt (g m) (g y)"
        "\<forall>u \<in> set us. tuple_lt (g m) (g u)" "\<forall>v \<in> set vs. \<not> tuple_lt (g v) (g m)"
      by blast
    with xs have "xs = (y # us) @ m # vs \<and> (\<forall>u \<in> set (y # us). tuple_lt (g m) (g u))
           \<and> (\<forall>v \<in> set vs. \<not> tuple_lt (g v) (g m))"
      by simp
    then show ?thesis by blast
  qed
  with pm show ?thesis by blast
qed

lemma py_min_first_least:
  assumes "py_min key xs = Inr m"
  shows "\<exists>us vs k. xs = us @ m # vs \<and> key m = Inr k
           \<and> (\<forall>u \<in> set us. \<exists>ku. key u = Inr ku \<and> tuple_lt k ku)
           \<and> (\<forall>v \<in> set vs. \<exists>kv. key v = Inr kv \<and> \<not> tuple_lt kv k)"
proof -
  from assms have ne: "xs \<noteq> []" by (auto simp: py_min_def)
  from py_min_keys [OF assms] have keys: "\<forall>x \<in> set xs. key x = Inr (projr (key x))"
    by auto
  from py_min_split [OF ne keys] assms obtain us vs where
    s: "xs = us @ m # vs" "\<forall>u \<in> set us. tuple_lt (projr (key m)) (projr (key u))"
       "\<forall>v \<in> set vs. \<not> tuple_lt (projr (key v)) (projr (key m))"
    by auto
  from s(1) keys have "key m = Inr (projr (key m))"
    "\<forall>u \<in> set us. key u = Inr (projr (key u))" "\<forall>v \<in> set vs. key v = Inr (projr (key v))"
    by auto
  with s show ?thesis by blast
qed

lemma split_unique:
  assumes eq: "us @ m # vs = us' @ m' # vs'"
    and before: "\<forall>u \<in> set us. lt (f m) (f u)" and after: "\<forall>v \<in> set vs. \<not> lt (f v) (f m)"
    and before': "\<forall>u \<in> set us'. lt (f m') (f u)" and after': "\<forall>v \<in> set vs'. \<not> lt (f v) (f m')"
  shows "us' = us \<and> m' = m \<and> vs' = vs"
proof -
  consider "length us < length us'" | "length us' < length us" | "length us = length us'"
    by linarith
  then show ?thesis
  proof cases
    case 1
    with eq obtain ws where "us' = us @ m # ws" "vs = ws @ m' # vs'"
      by (auto simp: append_eq_append_conv2 Cons_eq_append_conv append_eq_Cons_conv)
    then have "m \<in> set us'" "m' \<in> set vs" by simp_all
    with before' after show ?thesis by blast
  next
    case 2
    with eq obtain ws where "us = us' @ m' # ws" "vs' = ws @ m # vs"
      by (auto simp: append_eq_append_conv2 Cons_eq_append_conv append_eq_Cons_conv)
    then have "m' \<in> set us" "m \<in> set vs'" by simp_all
    with before after' show ?thesis by blast
  next
    case 3
    with eq show ?thesis by simp
  qed
qed

section \<open>Properties of server selection\<close>

lemma healthy_servers_set:
  "set (healthy_servers self)
     = {s \<in> set (dict_values (servers self)). 50 < as_real (health_score s)}"
  by (auto simp: healthy_servers_def)

lemma select_Some_py_min:
  "select_optimal_server fp self loc = Inr (Some s)
     \<Longrightarrow> py_min (selection_key fp loc) (healthy_servers self) = Inr s"
  by (auto simp: select_optimal_server_def split: if_splits sum.splits)

text \<open>
  C1: whenever \<open>select_optimal_server\<close> returns a server record, for any registry and any
  client location, that record is one of the registry's and its health score is
  strictly greater than 50; it is never a record with health score at most 50.
\<close>

theorem select_only_healthy:
  assumes "select_optimal_server fp self client_location = Inr (Some s)"
  shows "as_real (health_score s) > 50 \<and> \<not> as_real (health_score s) \<le> 50
       \<and> s \<in> set (dict_values (servers self))"
  using py_min_mem [OF select_Some_py_min [OF assms]] by (simp add: healthy_servers_set)

text \<open>
  C2: for any registry and any client location, \<open>select_optimal_server\<close> returns
  \<^verbatim>\<open>None\<close> if and only if the set of the registry's servers with a health score
  above 50 is empty.
\<close>

theorem select_none_iff:
  "select_optimal_server fp self client_location = Inr None
     \<longleftrightarrow> {s \<in> set (dict_values (servers self)). 50 < as_real (health_score s)} = {}"
proof -
  have "healthy_servers self = []
     \<longleftrightarrow> {s \<in> set (dict_values (servers self)). 50 < as_real (health_score s)} = {}"
    using healthy_servers_set [of self] by (metis set_empty)
  moreover have "select_optimal_server fp self client_location = Inr None
     \<longleftrightarrow> healthy_servers self = []"
    by (simp add: select_optimal_server_def split: sum.splits)
  ultimately show ?thesis by simp
qed


lemma run_read_only: "\<forall>op \<in> set ops. read_only op \<Longrightarrow> run ops self = self"
proof (induction ops)
  case Nil
  then show ?case by simp
next
  case (Cons op ops)
  then show ?case by (cases op) simp_all
qed

text \<open>
  C8: the record that a selection returns is fixed by the registry and the client
  location alone. Among the registry's records with health above 50, in registry
  order, it is the first whose key no other is strictly below: every record before it
  has a strictly larger key, and no record after it a strictly smaller one. One
  position only has this property. Selections and exports leave the registry as it is,
  so the same call after any number of them returns the same record.
\<close>

theorem select_deterministic:
  assumes "select_optimal_server fp self client_location = Inr (Some s)"
  shows "(\<exists>us vs.
            filter (\<lambda>r. 50 < as_real (health_score r)) (dict_values (servers self)) = us @ s # vs
            \<and> first_least fp client_location us s vs
            \<and> (\<forall>us' s' vs'.
                  filter (\<lambda>r. 50 < as_real (health_score r)) (dict_values (servers self))
                    = us' @ s' # vs'
                  \<and> first_least fp client_location us' s' vs'
                  \<longrightarrow> us' = us \<and> s' = s \<and> vs' = vs))
       \<and> (\<forall>ops. (\<forall>op \<in> set ops. read_only op) \<longrightarrow>
             select_optimal_server fp (run ops self) client_location = Inr (Some s))"
proof
  let ?key = "selection_key fp client_location"
  let ?hs = "filter (\<lambda>r. 50 < as_real (health_score r)) (dict_values (servers self))"
  have hs: "healthy_servers self = ?hs" by (simp add: healthy_servers_def)
  from py_min_first_least [OF select_Some_py_min [OF assms]] obtain us vs k where
    sp: "?hs = us @ s # vs" "?key s = Inr k"
        "\<forall>u \<in> set us. \<exists>ku. ?key u = Inr ku \<and> tuple_lt k ku"
        "\<forall>v \<in> set vs. \<exists>kv. ?key v = Inr kv \<and> \<not> tuple_lt kv k"
    unfolding hs by blast
  then have fl: "first_least fp client_location us s vs"
    by (auto simp: first_least_def)
  have uniq: "us' = us \<and> s' = s \<and> vs' = vs"
    if eq: "?hs = us' @ s' # vs'" and fl': "first_least fp client_location us' s' vs'"
    for us' s' vs'
  proof -
    from fl' obtain k' where
      k': "?key s' = Inr k'"
          "\<forall>u \<in> set us'. \<exists>ku. ?key u = Inr ku \<and> tuple_lt k' ku"
          "\<forall>v \<in> set vs'. \<exists>kv. ?key v = Inr kv \<and> \<not> tuple_lt kv k'"
      by (auto simp: first_least_def)
    have 1: "\<forall>u \<in> set us. tuple_lt (projr (?key s)) (projr (?key u))"
      using sp(2,3) by auto
    have 2: "\<forall>v \<in> set vs. \<not> tuple_lt (projr (?key v)) (projr (?key s))"
      using sp(2,4) by auto
    have 3: "\<forall>u \<in> set us'. tuple_lt (projr (?key s')) (projr (?key u))"
      using k'(1,2) by auto
    have 4: "\<forall>v \<in> set vs'. \<not> tuple_lt (projr (?key v)) (projr (?key s'))"
      using k'(1,3) by auto
    from eq sp(1) have "us @ s # vs = us' @ s' # vs'" by simp
    from split_unique [OF this, of tuple_lt "\<lambda>r. projr (?key r)", OF 1 2 3 4]
    show ?thesis .
  qed
  from sp(1) fl uniq
  show "\<exists>us vs. ?hs = us @ s # vs \<and> first_least fp client_location us s vs
            \<and> (\<forall>us' s' vs'. ?hs = us' @ s' # vs' \<and> first_least fp client_location us' s' vs'
                  \<longrightarrow> us' = us \<and> s' = s \<and> vs' = vs)"
    by blast
next
  show "\<forall>ops. (\<forall>op \<in> set ops. read_only op) \<longrightarrow>
          select_optimal_server fp (run ops self) client_location = Inr (Some s)"
    using assms by (simp add: run_read_only)
qed

lemma ex_select_one:
  "select_optimal_server exact_ops (register_server init_service (ex_server ''ny'' 100 0)) ex_loc
     = Inr (Some (ex_server ''ny'' 100 0))"
  by (simp add: select_optimal_server_def healthy_servers_def dict_values_def register_server_def
      init_service_def py_min_def selection_key_def health_deficit_exact ex_server_def
      new_ServerInfo_def
      distance_exact_same [OF ex_loc_coordinate])

theorem select_only_healthy_witness:
  "select_optimal_server exact_ops (register_server init_service (ex_server ''ny'' 100 0)) ex_loc
     = Inr (Some (ex_server ''ny'' 100 0))
   \<and> as_real (health_score (ex_server ''ny'' 100 0)) > 50"
  using select_only_healthy [OF ex_select_one] ex_select_one by simp

lemma servers_ex_tie:
  "dict_values (servers ex_tie) = [ex_server ''a'' 100 0, ex_server ''b'' 100 0]"
  by (simp add: ex_tie_def dict_values_def register_server_def init_service_def
      ex_server_def new_ServerInfo_def)

lemma ex_select_tie:
  "select_optimal_server exact_ops ex_tie ex_loc = Inr (Some (ex_server ''a'' 100 0))"
  by (simp add: select_optimal_server_def healthy_servers_def servers_ex_tie)
     (simp add: py_min_def selection_key_def health_deficit_exact ex_server_def
      new_ServerInfo_def
      distance_exact_same [OF ex_loc_coordinate] tuple_lt_def)

theorem select_none_iff_witness:
  "select_optimal_server exact_ops (register_server init_service (ex_server ''ny'' 40 0)) ex_loc
     = Inr None
   \<and> {s \<in> set (dict_values (servers (register_server init_service (ex_server ''ny'' 40 0)))).
        50 < as_real (health_score s)} = {}
   \<and> select_optimal_server exact_ops ex_tie ex_loc \<noteq> Inr None
   \<and> {s \<in> set (dict_values (servers ex_tie)). 50 < as_real (health_score s)} \<noteq> {}"
proof -
  have e: "{s \<in> set (dict_values (servers (register_server init_service (ex_server ''ny'' 40 0)))).
        50 < as_real (health_score s)} = {}"
    by (simp add: dict_values_def register_server_def init_service_def
        ex_server_def new_ServerInfo_def)
  have ne: "select_optimal_server exact_ops ex_tie ex_loc \<noteq> Inr None"
    by (simp add: ex_select_tie)
  from e ne
    select_none_iff [of exact_ops "register_server init_service (ex_server ''ny'' 40 0)" ex_loc]
    select_none_iff [of exact_ops ex_tie ex_loc]
  show ?thesis by simp
qed




theorem select_deterministic_witness:
  "select_optimal_server exact_ops ex_tie ex_loc = Inr (Some (ex_server ''a'' 100 0))
   \<and> filter (\<lambda>r. 50 < as_real (health_score r)) (dict_values (servers ex_tie))
       = [ex_server ''a'' 100 0, ex_server ''b'' 100 0]
   \<and> first_least exact_ops ex_loc [] (ex_server ''a'' 100 0) [ex_server ''b'' 100 0]
   \<and> select_optimal_server exact_ops (run [SelectServer ex_loc, ExportMetrics] ex_tie) ex_loc
       = Inr (Some (ex_server ''a'' 100 0))"
proof -
  have hs: "filter (\<lambda>r. 50 < as_real (health_score r)) (dict_values (servers ex_tie))
       = [ex_server ''a'' 100 0, ex_server ''b'' 100 0]"
    by (simp add: servers_ex_tie) (simp add: ex_server_def new_ServerInfo_def)
  have diff: "ex_server ''b'' 100 0 \<noteq> ex_server ''a'' 100 0"
    by (simp add: ex_server_def new_ServerInfo_def)
  from select_deterministic [OF ex_select_tie] obtain us vs where
    sp: "filter (\<lambda>r. 50 < as_real (health_score r)) (dict_values (servers ex_tie))
           = us @ ex_server ''a'' 100 0 # vs"
        "first_least exact_ops ex_loc us (ex_server ''a'' 100 0) vs"
    and again: "\<forall>ops. (\<forall>op \<in> set ops. read_only op) \<longrightarrow>
             select_optimal_server exact_ops (run ops ex_tie) ex_loc
               = Inr (Some (ex_server ''a'' 100 0))"
    by blast
  from sp(1) hs diff have "us = [] \<and> vs = [ex_server ''b'' 100 0]"
    by (cases us) (auto simp: Cons_eq_append_conv)
  with sp(2) have "first_least exact_ops ex_loc [] (ex_server ''a'' 100 0) [ex_server ''b'' 100 0]"
    by simp
  moreover have ro: "\<forall>op \<in> set [SelectServer ex_loc, ExportMetrics]. read_only op"
    by simp
  from again ro
  have "select_optimal_server exact_ops (run [SelectServer ex_loc, ExportMetrics] ex_tie) ex_loc
       = Inr (Some (ex_server ''a'' 100 0))"
    by blast
  ultimately show ?thesis using ex_select_tie hs by blast
qed

section \<open>Properties of the health check\<close>

lemma to_float_convertible: "convertible x \<Longrightarrow> to_float x = Inr (as_real x)"
  by (cases x) simp_all

lemma to_float_not_convertible: "\<not> convertible x \<Longrightarrow> to_float x = Inl OverflowError"
  by (cases x) simp_all

lemma as_real_py_max: "as_real (py_max a b) = max (as_real a) (as_real b)"
  by (simp add: py_max_def max_def)

lemma score_sub_computable:
  assumes "score_computable server"
  shows "\<exists>x. number_sub (health_score server) (PyInt (error_count server * 10)) = Inr x
           \<and> as_real x = new_score server"
proof (cases "health_score server")
  case (PyInt h)
  then show ?thesis by (simp add: new_score_def)
next
  case (PyFloat h)
  with assms have "\<bar>error_count server * 10\<bar> < 2 ^ 1024 - 2 ^ 970"
    by (simp add: score_computable_def)
  with PyFloat show ?thesis by (simp add: new_score_def)
qed

lemma score_sub_not_computable:
  assumes "\<not> score_computable server"
  shows "number_sub (health_score server) (PyInt (error_count server * 10)) = Inl OverflowError"
proof (cases "health_score server")
  case (PyInt h)
  with assms show ?thesis by (simp add: score_computable_def)
next
  case (PyFloat h)
  with assms have "\<not> \<bar>error_count server * 10\<bar> < 2 ^ 1024 - 2 ^ 970"
    by (simp add: score_computable_def)
  with PyFloat show ?thesis by simp
qed

lemma health_check_body_updates:
  assumes "updates t server"
  shows "\<exists>x. health_check_body t server
             = Inr (server\<lparr>health_score := py_max (PyInt 0) x, last_health_check := PyFloat t\<rparr>)
           \<and> as_real x = new_score server"
proof -
  from assms have c: "convertible (last_health_check server)" and d: "due t server"
    and s: "score_computable server"
    by (simp_all add: updates_def)
  from score_sub_computable [OF s] obtain x where
    x: "number_sub (health_score server) (PyInt (error_count server * 10)) = Inr x"
       "as_real x = new_score server"
    by blast
  with d have "health_check_body t server
      = Inr (server\<lparr>health_score := py_max (PyInt 0) x, last_health_check := PyFloat t\<rparr>)"
    by (simp add: health_check_body_def to_float_convertible [OF c] due_def)
  with x(2) show ?thesis by blast
qed

lemma health_check_body_raises:
  "(\<exists>e. health_check_body t server = Inl e)
     \<longleftrightarrow> \<not> convertible (last_health_check server)
         \<or> (due t server \<and> \<not> score_computable server)"
proof (cases "convertible (last_health_check server)")
  case False
  then show ?thesis
    by (simp add: health_check_body_def to_float_not_convertible)
next
  case c: True
  show ?thesis
  proof (cases "due t server")
    case False
    with c show ?thesis
      by (simp add: health_check_body_def to_float_convertible due_def)
  next
    case d: True
    show ?thesis
    proof (cases "score_computable server")
      case True
      with c d have "updates t server" by (simp add: updates_def)
      from health_check_body_updates [OF this] c d True show ?thesis by auto
    next
      case False
      with c d show ?thesis
        by (simp add: health_check_body_def to_float_convertible due_def
            score_sub_not_computable)
    qed
  qed
qed

lemma check_server_updates:
  assumes "updates t server"
  shows "as_real (health_score (check_server t server)) = max 0 (new_score server)"
    and "last_health_check (check_server t server) = PyFloat t"
    and "error_count (check_server t server) = error_count server"
  using health_check_body_updates [OF assms]
  by (auto simp: check_server_def as_real_py_max)

lemma check_server_unchanged:
  assumes "\<not> updates t server"
  shows "check_server t server = server"
proof (cases "\<exists>e. health_check_body t server = Inl e")
  case True
  then show ?thesis by (auto simp: check_server_def)
next
  case False
  then have c: "convertible (last_health_check server)"
    and ds: "\<not> due t server \<or> score_computable server"
    by (auto simp: health_check_body_raises)
  with assms have "\<not> due t server" by (auto simp: updates_def)
  with c show ?thesis
    by (simp add: check_server_def health_check_body_def to_float_convertible due_def)
qed

lemma length_check_servers_from: "length (check_servers_from clock j d) = length d"
  by (induction clock j d rule: check_servers_from.induct) simp_all

lemma nth_check_servers_from:
  "i < length d \<Longrightarrow>
     check_servers_from clock j d ! i = (fst (d ! i), check_server (clock (j + i)) (snd (d ! i)))"
proof (induction clock j d arbitrary: i rule: check_servers_from.induct)
  case (1 clock j)
  then show ?case by simp
next
  case (2 clock j k server d)
  then show ?case by (cases i) simp_all
qed

text \<open>
  C5 (as amended): one health-check pass keeps the registry's entries and their order.
  At every server whose last check lies more than 30 seconds before the clock reading
  taken for it, and whose numbers convert to floats, the health score stored is exactly
  \<open>max 0 (health_score - error_count * 10)\<close>. Every other server is left as it was:
  one that is not due, and one at which the evaluation raises \<^verbatim>\<open>OverflowError\<close>,
  which the handler of the loop catches.
\<close>

theorem health_check_pass_scores:
  assumes "i < length (servers self)"
  shows "length (servers (health_check_pass clock self)) = length (servers self)
       \<and> fst (servers (health_check_pass clock self) ! i) = fst (servers self ! i)
       \<and> (if 30 < clock i - as_real (last_health_check (snd (servers self ! i)))
             \<and> convertible (last_health_check (snd (servers self ! i)))
             \<and> score_computable (snd (servers self ! i))
          then as_real (health_score (snd (servers (health_check_pass clock self) ! i)))
                 = max 0 (as_real (health_score (snd (servers self ! i)))
                          - real_of_int (error_count (snd (servers self ! i)) * 10))
          else snd (servers (health_check_pass clock self) ! i) = snd (servers self ! i))"
proof -
  let ?s = "snd (servers self ! i)"
  have nth: "servers (health_check_pass clock self) ! i
      = (fst (servers self ! i), check_server (clock i) ?s)"
    using assms by (simp add: health_check_pass_def nth_check_servers_from)
  have len: "length (servers (health_check_pass clock self)) = length (servers self)"
    by (simp add: health_check_pass_def length_check_servers_from)
  have key: "fst (servers (health_check_pass clock self) ! i) = fst (servers self ! i)"
    by (simp add: nth)
  show ?thesis
  proof (cases "updates (clock i) ?s")
    case True
    then have "30 < clock i - as_real (last_health_check ?s)
      \<and> convertible (last_health_check ?s) \<and> score_computable ?s"
      by (simp add: updates_def due_def)
    moreover from check_server_updates(1) [OF True]
    have "as_real (health_score (snd (servers (health_check_pass clock self) ! i)))
                 = max 0 (as_real (health_score ?s) - real_of_int (error_count ?s * 10))"
      by (simp add: nth new_score_def)
    ultimately show ?thesis using len key by simp
  next
    case False
    then have "\<not> (30 < clock i - as_real (last_health_check ?s)
      \<and> convertible (last_health_check ?s) \<and> score_computable ?s)"
      by (simp add: updates_def due_def)
    moreover from check_server_unchanged [OF False]
    have "snd (servers (health_check_pass clock self) ! i) = ?s"
      by (simp add: nth)
    ultimately show ?thesis using len key by auto
  qed
qed

text \<open>
  A record with the float health 100 and the error count \<open>10 ^ 308\<close> is due at the
  reading 31, and the pass leaves it at health 100, where
  \<open>max 0 (health_score - error_count * 10)\<close> is 0: the integer \<open>10 ^ 309\<close> does not
  convert to a float.
\<close>

theorem health_check_pass_counterexample:
  "30 < (31::real) - as_real (last_health_check (ex_server ''ny'' 100 (10 ^ 308)))
   \<and> servers (health_check_pass (\<lambda>i. 31)
        (register_server init_service (ex_server ''ny'' 100 (10 ^ 308))))
       = [(''ny'', ex_server ''ny'' 100 (10 ^ 308))]
   \<and> as_real (health_score (ex_server ''ny'' 100 (10 ^ 308))) = 100
   \<and> max 0 (as_real (health_score (ex_server ''ny'' 100 (10 ^ 308)))
            - real_of_int (error_count (ex_server ''ny'' 100 (10 ^ 308)) * 10)) = 0"
  by (simp add: health_check_pass_def register_server_def init_service_def check_server_def
      health_check_body_def ex_server_def new_ServerInfo_def)

text \<open>
  C6 (as amended): a health update that is due (the reading \<open>t\<close> lies more than 30
  seconds after the stored time) and whose numbers convert to floats stores \<open>max 0 s\<close>
  for the computed score \<open>s = health_score - error_count * 10\<close>, which is
  \<open>clamp s 0 100\<close> whenever \<open>s \<le> 100\<close>, and sets the last check time to \<open>t\<close>,
  which is then strictly later than the stored one. Any other update changes nothing.
\<close>

theorem check_server_update:
  "(if 30 < t - as_real (last_health_check server)
       \<and> convertible (last_health_check server) \<and> score_computable server
    then as_real (health_score (check_server t server)) = max 0 (new_score server)
       \<and> (new_score server \<le> 100 \<longrightarrow>
            as_real (health_score (check_server t server)) = clamp (new_score server) 0 100)
       \<and> last_health_check (check_server t server) = PyFloat t
       \<and> as_real (last_health_check server) < t
    else check_server t server = server)"
proof (cases "updates t server")
  case True
  then have c: "30 < t - as_real (last_health_check server)
       \<and> convertible (last_health_check server) \<and> score_computable server"
    by (simp add: updates_def due_def)
  with check_server_updates [OF True] show ?thesis
    by (simp add: clamp_def)
next
  case False
  then have "\<not> (30 < t - as_real (last_health_check server)
       \<and> convertible (last_health_check server) \<and> score_computable server)"
    by (simp add: updates_def due_def)
  with check_server_unchanged [OF False] show ?thesis by auto
qed

text \<open>
  The score is bounded below only: a record registered with health 150 and no errors
  keeps 150 at its first check, where clamping to \<open>[0, 100]\<close> would store 100.
\<close>

theorem update_clamp_counterexample:
  "31 - as_real (last_health_check (ex_server ''ny'' 150 0)) > 30
   \<and> new_score (ex_server ''ny'' 150 0) = 150
   \<and> as_real (health_score (check_server 31 (ex_server ''ny'' 150 0))) = 150
   \<and> as_real (health_score (check_server 31 (ex_server ''ny'' 150 0)))
       \<noteq> clamp (new_score (ex_server ''ny'' 150 0)) 0 100"
  by (simp add: check_server_def health_check_body_def ex_server_def new_ServerInfo_def
      new_score_def clamp_def py_max_def)

theorem check_server_update_witness:
  "31 - as_real (last_health_check (ex_server ''ny'' 100 10)) > 30
   \<and> convertible (last_health_check (ex_server ''ny'' 100 10))
   \<and> score_computable (ex_server ''ny'' 100 10)
   \<and> new_score (ex_server ''ny'' 100 10) \<le> 100
   \<and> as_real (health_score (check_server 31 (ex_server ''ny'' 100 10))) = 0
   \<and> as_real (health_score (check_server 31 (ex_server ''ny'' 100 10)))
       = clamp (new_score (ex_server ''ny'' 100 10)) 0 100
   \<and> last_health_check (check_server 31 (ex_server ''ny'' 100 10)) = PyFloat 31
   \<and> check_server 20 (ex_server ''ny'' 100 10) = ex_server ''ny'' 100 10
   \<and> \<not> score_computable (ex_server ''ny'' 100 (10 ^ 308))
   \<and> check_server 31 (ex_server ''ny'' 100 (10 ^ 308)) = ex_server ''ny'' 100 (10 ^ 308)"
proof -
  have due: "31 - as_real (last_health_check (ex_server ''ny'' 100 10)) > 30"
    and conv: "convertible (last_health_check (ex_server ''ny'' 100 10))"
    and comp: "score_computable (ex_server ''ny'' 100 10)"
    by (simp_all add: ex_server_def new_ServerInfo_def score_computable_def)
  have early: "\<not> 20 - as_real (last_health_check (ex_server ''ny'' 100 10)) > 30"
    by (simp add: ex_server_def new_ServerInfo_def)
  have big: "\<not> score_computable (ex_server ''ny'' 100 (10 ^ 308))"
    by (simp add: ex_server_def new_ServerInfo_def score_computable_def)
  have ns: "new_score (ex_server ''ny'' 100 10) = 0"
    by (simp add: new_score_def ex_server_def new_ServerInfo_def)
  show ?thesis
    using check_server_update [of 31 "ex_server ''ny'' 100 10"]
      check_server_update [of 20 "ex_server ''ny'' 100 10"]
      check_server_update [of 31 "ex_server ''ny'' 100 (10 ^ 308)"]
      due conv comp early big ns
    by (simp add: clamp_def)
qed

theorem health_check_pass_scores_witness:
  "(0::nat) < length (servers ex_pass) \<and> (1::nat) < length (servers ex_pass)
   \<and> as_real (health_score (snd (servers (health_check_pass (\<lambda>i. 1010) ex_pass) ! 0))) = 70
   \<and> snd (servers (health_check_pass (\<lambda>i. 1010) ex_pass) ! 1) = snd (servers ex_pass ! 1)"
proof -
  have sv: "servers ex_pass = [(''a'', ex_server ''a'' 100 3),
      (''b'', (ex_server ''b'' 90 1)\<lparr>last_health_check := PyFloat 1000\<rparr>)]"
    by (simp add: ex_pass_def register_server_def init_service_def ex_server_def new_ServerInfo_def)
  have l0: "(0::nat) < length (servers ex_pass)" and l1: "(1::nat) < length (servers ex_pass)"
    by (simp_all add: sv)
  show ?thesis
    using health_check_pass_scores [OF l0, of "\<lambda>i. 1010"]
      health_check_pass_scores [OF l1, of "\<lambda>i. 1010"] l0 l1
    by (simp add: sv ex_server_def new_ServerInfo_def score_computable_def)
qed

section \<open>Invariants over sequences of operations\<close>

lemma map_of_dict_set: "map_of (dict_set k v d) = (map_of d)(k \<mapsto> v)"
  by (induction d) (auto simp: fun_eq_iff)

lemma keys_dict_set_present:
  "map_of d k \<noteq> None \<Longrightarrow> map fst (dict_set k v d) = map fst d"
  by (induction d) auto

lemma set_dict_set: "set (dict_set k v d) \<subseteq> insert (k, v) (set d)"
  by (induction d) (auto split: if_splits)

lemma map_of_dict_del_other: "k' \<noteq> k \<Longrightarrow> map_of (dict_del k d) k' = map_of d k'"
  by (induction d) auto

lemma set_dict_del: "set (dict_del k d) \<subseteq> set d"
  by (induction d) (auto split: if_splits)

lemma set_check_servers_from:
  "(k, s') \<in> set (check_servers_from clock j d)
     \<Longrightarrow> \<exists>s t. (k, s) \<in> set d \<and> s' = check_server t s"
  by (induction clock j d rule: check_servers_from.induct) auto

lemma map_of_check_servers_from:
  "map_of d k = Some s
     \<Longrightarrow> \<exists>t. map_of (check_servers_from clock j d) k = Some (check_server t s)"
  by (induction clock j d rule: check_servers_from.induct) auto

lemma check_server_sound: "sound_record s \<Longrightarrow> sound_record (check_server t s)"
proof (cases "updates t s")
  case True
  assume s: "sound_record s"
  then have "new_score s \<le> 100"
    by (simp add: sound_record_def new_score_def)
  with s show ?thesis
    by (simp add: sound_record_def check_server_updates [OF True])
next
  case False
  assume "sound_record s"
  then show ?thesis by (simp add: check_server_unchanged [OF False])
qed

lemma check_server_time: "time_of s \<le> time_of (check_server t s)"
proof (cases "updates t s")
  case True
  then have "as_real (last_health_check s) < t" by (simp add: updates_def due_def)
  then show ?thesis by (simp add: time_of_def check_server_updates(2) [OF True])
next
  case False
  then show ?thesis by (simp add: check_server_unchanged)
qed

lemma apply_operation_sound:
  assumes "registers_default op" "sound_registry self"
  shows "sound_registry (apply_operation op self)"
proof (cases op)
  case (Register info)
  with assms(1) have "sound_record info" by (simp add: sound_record_def)
  with assms(2) Register show ?thesis
    using set_dict_set [of "server_id info" info "servers self"]
    by (auto simp: sound_registry_def register_server_def)
next
  case (Deregister sid)
  with assms(2) show ?thesis
    using set_dict_del [of sid "servers self"]
    by (auto simp: sound_registry_def deregister_server_def)
next
  case (HealthCheckPass clock)
  with assms(2) show ?thesis
    by (auto simp: sound_registry_def health_check_pass_def
        dest!: set_check_servers_from intro: check_server_sound)
qed (use assms(2) in simp_all)

lemma run_sound:
  "\<forall>op \<in> set ops. registers_default op \<Longrightarrow> sound_registry self \<Longrightarrow> sound_registry (run ops self)"
  by (induction ops arbitrary: self) (simp_all add: apply_operation_sound)

lemma apply_operation_time:
  assumes "\<not> replaces k op" "dict_get (servers self) k = Some s"
  shows "\<exists>s'. dict_get (servers (apply_operation op self)) k = Some s' \<and> time_of s \<le> time_of s'"
proof (cases op)
  case (Register info)
  with assms show ?thesis
    by (simp add: register_server_def dict_get_def map_of_dict_set)
next
  case (Deregister sid)
  with assms show ?thesis
    by (simp add: deregister_server_def dict_get_def map_of_dict_del_other)
next
  case (HealthCheckPass clock)
  from assms(2) obtain t where
    "map_of (check_servers_from clock 0 (servers self)) k = Some (check_server t s)"
    using map_of_check_servers_from unfolding dict_get_def by blast
  with HealthCheckPass show ?thesis
    by (simp add: health_check_pass_def dict_get_def check_server_time)
qed (use assms(2) in simp_all)

lemma run_time:
  "\<forall>op \<in> set ops. \<not> replaces k op \<Longrightarrow> dict_get (servers self) k = Some s
     \<Longrightarrow> \<exists>s'. dict_get (servers (run ops self)) k = Some s' \<and> time_of s \<le> time_of s'"
proof (induction ops arbitrary: self s)
  case Nil
  then show ?case by simp
next
  case (Cons op ops)
  from Cons.prems have nr: "\<not> replaces k op" and rest: "\<forall>op \<in> set ops. \<not> replaces k op"
    by simp_all
  from apply_operation_time [OF nr Cons.prems(2)] obtain s1 where
    s1: "dict_get (servers (apply_operation op self)) k = Some s1" "time_of s \<le> time_of s1"
    by blast
  from Cons.IH [OF rest s1(1)] obtain s' where
    "dict_get (servers (run ops (apply_operation op self))) k = Some s'" "time_of s1 \<le> time_of s'"
    by blast
  with s1(2) show ?case by auto
qed

lemma run_append: "run (ops @ later) self = run later (run ops self)"
  by (induction ops arbitrary: self) simp_all

text \<open>
  C7 (as amended): start from the empty registry and apply any operations (register,
  deregister, health-check pass, selection, export) in which every registered record
  has health 100 and a non-negative error count. Then every record's health score lies
  in \<open>[0, 100]\<close>; and over any further operations that neither re-register nor
  deregister its id, a record stays registered and its last check time does not
  decrease.
\<close>

theorem health_range_time_monotone:
  assumes "\<forall>op \<in> set ops. registers_default op"
  shows "(\<forall>(k, s) \<in> set (servers (run ops init_service)).
            0 \<le> as_real (health_score s) \<and> as_real (health_score s) \<le> 100)
       \<and> (\<forall>later k s.
            (\<forall>op \<in> set later. \<not> replaces k op)
            \<and> dict_get (servers (run ops init_service)) k = Some s
            \<longrightarrow> (\<exists>s'. dict_get (servers (run (ops @ later) init_service)) k = Some s'
                     \<and> as_real (last_health_check s) \<le> as_real (last_health_check s')))"
proof -
  have "sound_registry init_service" by (simp add: sound_registry_def init_service_def)
  with assms have "sound_registry (run ops init_service)" by (rule run_sound)
  then have range: "\<forall>(k, s) \<in> set (servers (run ops init_service)).
      0 \<le> as_real (health_score s) \<and> as_real (health_score s) \<le> 100"
    by (auto simp: sound_registry_def sound_record_def)
  have "\<exists>s'. dict_get (servers (run (ops @ later) init_service)) k = Some s'
          \<and> as_real (last_health_check s) \<le> as_real (last_health_check s')"
    if "\<forall>op \<in> set later. \<not> replaces k op"
      and "dict_get (servers (run ops init_service)) k = Some s" for later k s
    using run_time [OF that] by (simp add: run_append time_of_def)
  with range show ?thesis by blast
qed

lemma run_ex_ops:
  "servers (run ex_ops init_service)
     = [(''ny'', (ex_server ''ny'' 100 10)\<lparr>health_score := PyInt 0, last_health_check := PyFloat 31\<rparr>)]"
  by (simp add: ex_ops_def init_service_def register_server_def deregister_server_def
      health_check_pass_def check_server_def health_check_body_def dict_contains_def dict_get_def py_max_def
      ex_server_def new_ServerInfo_def)

theorem health_range_time_monotone_witness:
  "list_all registers_default ex_ops
   \<and> map (\<lambda>(k, s). as_real (health_score s)) (servers (run ex_ops init_service)) = [0]
   \<and> (\<exists>s. dict_get (servers (run ex_ops init_service)) ''ny'' = Some s
          \<and> as_real (last_health_check s) = 31)
   \<and> (\<exists>s'. dict_get (servers (run (ex_ops @ [HealthCheckPass (\<lambda>i. 100), ExportMetrics])
                init_service)) ''ny'' = Some s'
          \<and> 31 \<le> as_real (last_health_check s'))"
proof -
  have adm: "\<forall>op \<in> set ex_ops. registers_default op"
    by (simp add: ex_ops_def ex_server_def new_ServerInfo_def)
  have later: "\<forall>op \<in> set [HealthCheckPass (\<lambda>i. 100), ExportMetrics]. \<not> replaces ''ny'' op"
    by simp
  have now: "dict_get (servers (run ex_ops init_service)) ''ny''
     = Some ((ex_server ''ny'' 100 10)\<lparr>health_score := PyInt 0, last_health_check := PyFloat 31\<rparr>)"
    by (simp add: run_ex_ops dict_get_def)
  from health_range_time_monotone [OF adm] later now
  have "\<exists>s'. dict_get (servers (run (ex_ops @ [HealthCheckPass (\<lambda>i. 100), ExportMetrics])
                init_service)) ''ny'' = Some s'
          \<and> as_real (last_health_check ((ex_server ''ny'' 100 10)\<lparr>health_score := PyInt 0,
                last_health_check := PyFloat 31\<rparr>)) \<le> as_real (last_health_check s')"
    by blast
  then have "\<exists>s'. dict_get (servers (run (ex_ops @ [HealthCheckPass (\<lambda>i. 100), ExportMetrics])
                init_service)) ''ny'' = Some s' \<and> 31 \<le> as_real (last_health_check s')"
    by simp
  moreover have "list_all registers_default ex_ops"
    using adm by (simp add: list_all_iff)
  moreover have "map (\<lambda>(k, s). as_real (health_score s)) (servers (run ex_ops init_service)) = [0]"
    by (simp add: run_ex_ops)
  ultimately show ?thesis using now by simp
qed

text \<open>
  With a negative error count the bound of 100 fails: a record registered with health
  100 and error count \<open>-1\<close> has health 110 after one pass.
\<close>

theorem health_range_counterexample:
  "list_all (\<lambda>op. case op of Register info \<Rightarrow> as_real (health_score info) = 100 | _ \<Rightarrow> True)
     ex_bad_ops
   \<and> map (\<lambda>(k, s). as_real (health_score s)) (servers (run ex_bad_ops init_service)) = [110]
   \<and> \<not> (\<forall>(k, s) \<in> set (servers (run ex_bad_ops init_service)).
            0 \<le> as_real (health_score s) \<and> as_real (health_score s) \<le> 100)"
  by (simp add: ex_bad_ops_def init_service_def register_server_def
      health_check_pass_def check_server_def health_check_body_def py_max_def ex_server_def new_ServerInfo_def)

text \<open>
  C10: registering a record under an id that is already registered replaces the stored
  record by the supplied one as a whole (health score, request and error counters and
  last check time are the new record's), leaves the records under all other ids
  untouched, and keeps the order of the ids.
\<close>

theorem reregister_replaces_record:
  assumes "dict_contains (server_id info) (servers self)"
  shows "dict_get (servers (register_server self info)) (server_id info) = Some info
       \<and> (\<exists>r. dict_get (servers (register_server self info)) (server_id info) = Some r
              \<and> health_score r = health_score info
              \<and> total_requests r = total_requests info
              \<and> error_count r = error_count info
              \<and> last_health_check r = last_health_check info)
       \<and> (\<forall>k. k \<noteq> server_id info \<longrightarrow>
              dict_get (servers (register_server self info)) k = dict_get (servers self) k)
       \<and> map fst (servers (register_server self info)) = map fst (servers self)"
  using assms keys_dict_set_present [of "servers self" "server_id info" info]
  by (simp add: register_server_def dict_get_def dict_contains_def map_of_dict_set)

lemma servers_ex_worn:
  "servers ex_worn =
     [(''a'', (ex_server ''a'' 100 3)\<lparr>total_requests := 7, health_score := PyFloat 70,
                last_health_check := PyFloat 31\<rparr>),
      (''b'', (ex_server ''b'' 100 1)\<lparr>health_score := PyFloat 90, last_health_check := PyFloat 31\<rparr>)]"
  by (simp add: ex_worn_def init_service_def register_server_def
      health_check_pass_def check_server_def health_check_body_def py_max_def ex_server_def new_ServerInfo_def)

theorem reregister_replaces_record_witness:
  "dict_contains (server_id (ex_server ''a'' 100 0)) (servers ex_worn)
   \<and> dict_get (servers ex_worn) ''a''
       = Some ((ex_server ''a'' 100 3)\<lparr>total_requests := 7, health_score := PyFloat 70,
                last_health_check := PyFloat 31\<rparr>)
   \<and> dict_get (servers (register_server ex_worn (ex_server ''a'' 100 0))) ''a''
       = Some (ex_server ''a'' 100 0)
   \<and> dict_get (servers (register_server ex_worn (ex_server ''a'' 100 0))) ''b''
       = dict_get (servers ex_worn) ''b''
   \<and> map fst (servers (register_server ex_worn (ex_server ''a'' 100 0))) = [''a'', ''b'']"
proof -
  have sid: "server_id (ex_server ''a'' 100 0) = ''a''"
    by (simp add: ex_server_def new_ServerInfo_def)
  have present: "dict_contains (server_id (ex_server ''a'' 100 0)) (servers ex_worn)"
    by (simp add: sid servers_ex_worn dict_contains_def dict_get_def)
  from reregister_replaces_record [OF present] present show ?thesis
    by (simp add: sid) (simp add: servers_ex_worn dict_get_def)
qed

section \<open>Properties of the metrics export\<close>



















lemma servers_ex_one:
  "servers ex_one = [(''ny'', (ex_server ''ny'' 100 2)\<lparr>total_requests := 15\<rparr>)]"
  by (simp add: ex_one_def register_server_def init_service_def ex_server_def new_ServerInfo_def)

lemma metrics_list_ex_one:
  "metrics_list (\<lambda>r. ''100.0'') ex_one
       = [''cdn_server_health{server_id='' @ [dquote] @ ''ny'' @ [dquote] @ ''} 100.0'',
          ''cdn_server_requests{server_id='' @ [dquote] @ ''ny'' @ [dquote] @ ''} 15'',
          ''cdn_server_errors{server_id='' @ [dquote] @ ''ny'' @ [dquote] @ ''} 2'']"
  by (simp add: metrics_list_def servers_ex_one server_metrics_def ex_server_def
      new_ServerInfo_def format_number_def str_int_def str_nat.simps)



end
